theory Spec2Isabelle
  imports Main "HOL-Library.Word"
begin

section \<open>go-tailf: the tail engine\<close>

text \<open>
  A shallow embedding of \<^verbatim>\<open>tailf.go\<close>, \<^verbatim>\<open>fileidentity.go\<close>,
  \<^verbatim>\<open>fileidentity_windows.go\<close> and the options file. The engine talks to the
  operating system, to a buffered reader and to a cancellation context; none of these is
  code of the repository. Each call the engine makes to them is answered by an explicit
  environment value (what that call returns when it is made), and each call that changes
  the world (seek to start, open, close, reset of the reader, send on a channel, ...) is
  appended, in program order, to a list of effects. The control flow, the variables and
  the error values are those of the source.

  The loop of \<^verbatim>\<open>tailLoop\<close> has no bound: it is followed for as many passes as the
  environment describes, and a run whose passes are used up before the loop returns is
  reported as still running. \<^verbatim>\<open>waitForData\<close> only blocks (until the notification,
  the timer or the cancellation) and changes no variable; it is the effect \<open>Wait\<close>, and
  a cancellation during the wait is seen at the \<^verbatim>\<open>select\<close> of the next pass.
\<close>

subsection \<open>Errors\<close>

text \<open>
  \<^verbatim>\<open>io.EOF\<close> is a sentinel value compared with \<^verbatim>\<open>!=\<close>; every other error the
  standard library hands back is opaque (\<open>OSError\<close>); \<^verbatim>\<open>fmt.Errorf("p: %w", err)\<close> wraps.
\<close>

datatype error = EOF | OSError string | Wrapped string error

fun errorString :: "error \<Rightarrow> string" where
  "errorString EOF = ''EOF''"
| "errorString (OSError m) = m"
| "errorString (Wrapped p e) = p @ '': '' @ errorString e"

subsection \<open>File identity (fileidentity.go, fileidentity\_windows.go)\<close>

record fileIdentity =
  dev :: "64 word"
  ino :: "64 word"

text \<open>The zero value \<^verbatim>\<open>fileIdentity{}\<close>.\<close>

definition fileIdentity_zero :: fileIdentity where
  "fileIdentity_zero = \<lparr>dev = 0, ino = 0\<rparr>"

text \<open>
  \<^verbatim>\<open>syscall.Stat_t\<close>, of which the source reads \<^verbatim>\<open>Dev\<close> and \<^verbatim>\<open>Ino\<close>, each
  already converted by \<^verbatim>\<open>uint64(...)\<close>. An \<^verbatim>\<open>os.FileInfo\<close> answers \<^verbatim>\<open>Size()\<close>
  and \<^verbatim>\<open>Sys()\<close>; \<open>fi_sys\<close> is \<open>None\<close> when the type assertion
  \<^verbatim>\<open>info.Sys().(*syscall.Stat_t)\<close> fails.
\<close>

record stat_t =
  st_dev :: "64 word"
  st_ino :: "64 word"

record fileInfo =
  fi_size :: int
  fi_sys :: "stat_t option"

definition getFileIdentity :: "fileInfo \<Rightarrow> fileIdentity" where
  "getFileIdentity info =
     (case fi_sys info of
        None \<Rightarrow> fileIdentity_zero
      | Some stat \<Rightarrow> \<lparr>dev = st_dev stat, ino = st_ino stat\<rparr>)"

definition getFileIdentity_windows :: "fileInfo \<Rightarrow> fileIdentity" where
  "getFileIdentity_windows info = fileIdentity_zero"

subsection \<open>Handles, readers, effects\<close>

text \<open>
  An \<^verbatim>\<open>*os.File\<close> is a pointer; the model names it by a number. A
  \<^verbatim>\<open>*bufio.Reader\<close> is known by the file it reads from and its buffer size; what it
  returns is the environment's answer. \<^verbatim>\<open>bufio.NewReaderSize\<close> raises a size below
  16 to 16, \<^verbatim>\<open>bufio.NewReader\<close> uses 4096, \<^verbatim>\<open>Reset\<close> switches the source and
  drops what is buffered (the drop is the effect \<open>ReaderReset\<close>).
\<close>

type_synonym fptr = nat

record bufReader =
  rd :: fptr
  rsize :: int

definition NewReaderSize :: "fptr \<Rightarrow> int \<Rightarrow> bufReader" where
  "NewReaderSize f n = \<lparr>rd = f, rsize = (if n < 16 then 16 else n)\<rparr>"

definition NewReader :: "fptr \<Rightarrow> bufReader" where
  "NewReader f = NewReaderSize f 4096"

definition Reset :: "bufReader \<Rightarrow> fptr \<Rightarrow> bufReader" where
  "Reset r f = r\<lparr>rd := f\<rparr>"

record Line =
  Text :: string
  Time :: int

text \<open>
  The calls that change the world, in the order the program makes them. A call that only
  asks (\<^verbatim>\<open>Seek(0, io.SeekCurrent)\<close>, \<^verbatim>\<open>Stat\<close>) or that fails is not listed.
\<close>

datatype effect =
    Open string fptr
  | Close fptr
  | SeekStart fptr
  | SeekEnd fptr
  | ReaderReset fptr
  | Wait
  | Send Line
  | MakeLines nat
  | MakeDone
  | Go
  | SetErr error
  | CloseLines
  | CloseDone

subsection \<open>checkFileState\<close>

text \<open>
  What the operating system answers to the calls of one \<^verbatim>\<open>checkFileState\<close>:
  \<open>seekCur\<close> for \<^verbatim>\<open>file.Seek(0, io.SeekCurrent)\<close>, \<open>fstat\<close> for
  \<^verbatim>\<open>file.Stat()\<close>, \<open>seekStart\<close> for \<^verbatim>\<open>file.Seek(0, io.SeekStart)\<close> (its error),
  \<open>pathStat\<close> for \<^verbatim>\<open>os.Stat(path)\<close>, \<open>openPath\<close> for \<^verbatim>\<open>os.Open(path)\<close> and
  \<open>newStat\<close> for \<^verbatim>\<open>newFile.Stat()\<close>. \<open>Inl\<close> is the error.
\<close>

record fsObs =
  seekCur :: "error + int"
  fstat :: "error + fileInfo"
  seekStart :: "error option"
  pathStat :: "error + fileInfo"
  openPath :: "error + fptr"
  newStat :: "error + fileInfo"

text \<open>
  The result is the source's five values and the effects. The resolver \<open>gfi\<close> is
  \<open>getFileIdentity\<close> or \<open>getFileIdentity_windows\<close>, as the build tag selects.
\<close>

definition checkFileState ::
  "(fileInfo \<Rightarrow> fileIdentity) \<Rightarrow> fsObs \<Rightarrow> fptr \<Rightarrow> bufReader \<Rightarrow> fileIdentity \<Rightarrow> string
    \<Rightarrow> (fptr \<times> bufReader \<times> fileIdentity \<times> bool \<times> error option) \<times> effect list" where
  "checkFileState gfi ob file reader fileID path =
     (case seekCur ob of
        Inl err \<Rightarrow> ((file, reader, fileID, False, Some (Wrapped ''seek error'' err)), [])
      | Inr currentPos \<Rightarrow>
     (case fstat ob of
        Inl err \<Rightarrow> ((file, reader, fileID, False, Some (Wrapped ''stat error'' err)), [])
      | Inr stat \<Rightarrow>
     if fi_size stat < currentPos then
       (case seekStart ob of
          Some err \<Rightarrow>
            ((file, reader, fileID, False, Some (Wrapped ''seek after truncation'' err)), [])
        | None \<Rightarrow>
            ((file, Reset reader file, fileID, False, None), [SeekStart file, ReaderReset file]))
     else
     (case pathStat ob of
        Inl err \<Rightarrow> ((file, reader, fileID, False, None), [])
      | Inr pathInfo \<Rightarrow>
     let newID = gfi pathInfo in
     if newID \<noteq> fileID \<and> newID \<noteq> fileIdentity_zero then
       (case openPath ob of
          Inl err \<Rightarrow> ((file, reader, fileID, False, None), [])
        | Inr newFile \<Rightarrow>
       let newReader = NewReader newFile in
       (case newStat ob of
          Inl err \<Rightarrow>
            ((file, reader, fileID, False, Some (Wrapped ''stat new file'' err)),
             [Open path newFile, Close file, Close newFile])
        | Inr newInfo \<Rightarrow>
            ((newFile, newReader, gfi newInfo, True, None),
             [Open path newFile, Close file])))
     else ((file, reader, fileID, False, None), []))))"

subsection \<open>tailLoop\<close>

text \<open>\<^verbatim>\<open>strings.TrimRight(s, cutset)\<close>: drop the trailing bytes that are in the cutset.\<close>

definition TrimRight :: "string \<Rightarrow> string \<Rightarrow> string" where
  "TrimRight s cutset = rev (dropWhile (\<lambda>c. c \<in> set cutset) (rev s))"

definition crlf :: string where
  "crlf = [CHR 0x0D, CHR 0x0A]"

text \<open>
  What one pass of the \<^verbatim>\<open>for\<close> loop meets: whether \<^verbatim>\<open>ctx.Done()\<close> is ready at
  the first \<^verbatim>\<open>select\<close>; what \<^verbatim>\<open>reader.ReadString('\n')\<close> returns; the answers to
  the state check; the clock; and whether, at the second \<^verbatim>\<open>select\<close>, the send on
  \<^verbatim>\<open>t.lines\<close> is taken (\<open>True\<close>) or \<^verbatim>\<open>ctx.Done()\<close> (\<open>False\<close>).
\<close>

record iterEnv =
  ctxDone :: bool
  readString :: "string \<times> error option"
  obs :: fsObs
  now :: int
  sendWins :: bool

text \<open>The loop's variables: the three it was passed and reassigns, and \<^verbatim>\<open>partialLine\<close>.\<close>

record loopVars =
  v_file :: fptr
  v_reader :: bufReader
  v_fileID :: fileIdentity
  partialLine :: string

datatype flow = Continue | Return "error option"

text \<open>One pass of the loop body: \<open>Continue\<close> goes round again, \<open>Return\<close> leaves.\<close>

definition loopBody ::
  "(fileInfo \<Rightarrow> fileIdentity) \<Rightarrow> string \<Rightarrow> iterEnv \<Rightarrow> loopVars \<Rightarrow> flow \<times> loopVars \<times> effect list" where
  "loopBody gfi path e v =
     (if ctxDone e then (Return None, v, [])
      else
        (case readString e of
           (line, Some err) \<Rightarrow>
             if err \<noteq> EOF then (Return (Some (Wrapped ''read error'' err)), v, [])
             else
               let v1 = v\<lparr>partialLine := partialLine v @ line\<rparr> in
               (case checkFileState gfi (obs e) (v_file v1) (v_reader v1) (v_fileID v1) path of
                  ((file', reader', fileID', reopened, cerr), fx) \<Rightarrow>
                    let v2 = v1\<lparr>v_file := file', v_reader := reader', v_fileID := fileID'\<rparr> in
                    (case cerr of
                       Some err' \<Rightarrow> (Return (Some err'), v2, fx)
                     | None \<Rightarrow>
                         let v3 = (if reopened then v2\<lparr>partialLine := []\<rparr> else v2);
                             v4 = (if \<not> reopened
                                   then v3\<lparr>v_reader := Reset (v_reader v3) (v_file v3)\<rparr>
                                   else v3);
                             fx' = (if \<not> reopened then [ReaderReset (v_file v3)] else [])
                         in (Continue, v4, fx @ fx' @ [Wait])))
         | (line, None) \<Rightarrow>
             let line1 = (if partialLine v \<noteq> [] then partialLine v @ line else line);
                 v1 = (if partialLine v \<noteq> [] then v\<lparr>partialLine := []\<rparr> else v);
                 line2 = TrimRight line1 crlf
             in if line2 = [] then (Continue, v1, [])
                else
                  let l = \<lparr>Text = line2, Time = now e\<rparr>
                  in if sendWins e then (Continue, v1, [Send l])
                     else (Return None, v1, [])))"

text \<open>
  The loop over the passes the environment describes. \<open>Running\<close>: the list is used up and
  the loop has not returned; \<open>Returned r\<close>: it returned \<open>r\<close>.
\<close>

datatype outcome = Running | Returned "error option"

fun forLoop ::
  "(fileInfo \<Rightarrow> fileIdentity) \<Rightarrow> string \<Rightarrow> iterEnv list \<Rightarrow> loopVars \<Rightarrow> outcome \<times> loopVars \<times> effect list" where
  "forLoop gfi path [] v = (Running, v, [])"
| "forLoop gfi path (e # es) v =
     (case loopBody gfi path e v of
        (Return r, v', fx) \<Rightarrow> (Returned r, v', fx)
      | (Continue, v', fx) \<Rightarrow>
          (case forLoop gfi path es v' of (out, v'', fx') \<Rightarrow> (out, v'', fx @ fx')))"

definition tailLoop ::
  "(fileInfo \<Rightarrow> fileIdentity) \<Rightarrow> iterEnv list \<Rightarrow> fptr \<Rightarrow> bufReader \<Rightarrow> fileIdentity \<Rightarrow> string
    \<Rightarrow> outcome \<times> loopVars \<times> effect list" where
  "tailLoop gfi es file reader fileID path =
     forLoop gfi path es \<lparr>v_file = file, v_reader = reader, v_fileID = fileID, partialLine = []\<rparr>"

subsection \<open>Options (the options file)\<close>

text \<open>
  \<^verbatim>\<open>pollInterval\<close> is a \<^verbatim>\<open>time.Duration\<close>, a count of nanoseconds; \<open>notify\<close> is
  the channel, if one was given.
\<close>

record options =
  fromStart :: bool
  pollInterval :: int
  notify :: "nat option"
  bufSize :: int

definition defaults :: options where
  "defaults = \<lparr>fromStart = False, pollInterval = 100 * 1000000, notify = None, bufSize = 4096\<rparr>"

type_synonym Option = "options \<Rightarrow> options"

definition WithFromStart :: "bool \<Rightarrow> Option" where
  "WithFromStart b = (\<lambda>cfg. cfg\<lparr>fromStart := b\<rparr>)"

definition WithPollInterval :: "int \<Rightarrow> Option" where
  "WithPollInterval d = (\<lambda>cfg. cfg\<lparr>pollInterval := d\<rparr>)"

definition WithNotify :: "nat \<Rightarrow> Option" where
  "WithNotify ch = (\<lambda>cfg. cfg\<lparr>notify := Some ch\<rparr>)"

definition WithBufSize :: "int \<Rightarrow> Option" where
  "WithBufSize n = (\<lambda>cfg. cfg\<lparr>bufSize := n\<rparr>)"

subsection \<open>openFile and Follow\<close>

text \<open>
  The answers to \<^verbatim>\<open>openFile\<close>'s calls: \<^verbatim>\<open>os.Open(path)\<close>,
  \<^verbatim>\<open>file.Seek(0, io.SeekEnd)\<close> (its error) and \<^verbatim>\<open>file.Stat()\<close>.
\<close>

record openObs =
  osOpen :: "error + fptr"
  seekEnd :: "error option"
  fileStat :: "error + fileInfo"

definition openFile ::
  "(fileInfo \<Rightarrow> fileIdentity) \<Rightarrow> openObs \<Rightarrow> string \<Rightarrow> options
    \<Rightarrow> (error + fptr \<times> bufReader \<times> fileIdentity) \<times> effect list" where
  "openFile gfi oo path cfg =
     (case osOpen oo of
        Inl err \<Rightarrow> (Inl err, [])
      | Inr file \<Rightarrow>
          (case (if \<not> fromStart cfg then seekEnd oo else None) of
             Some err \<Rightarrow> (Inl err, [Open path file, Close file])
           | None \<Rightarrow>
               let fx = [Open path file] @ (if \<not> fromStart cfg then [SeekEnd file] else []) in
               (case fileStat oo of
                  Inl err \<Rightarrow> (Inl err, fx @ [Close file])
                | Inr info \<Rightarrow> (Inr (file, NewReaderSize file (bufSize cfg), gfi info), fx))))"

text \<open>
  The \<^verbatim>\<open>Tailer\<close>, as far as the caller can read it: the error slot behind
  \<^verbatim>\<open>Err()\<close>. The two channels are in the effects (\<open>MakeLines\<close>, \<open>Send\<close>,
  \<open>CloseLines\<close>, \<open>MakeDone\<close>, \<open>CloseDone\<close>).
\<close>

record Tailer =
  t_err :: "error option"

definition setErr :: "Tailer \<Rightarrow> error \<Rightarrow> Tailer" where
  "setErr t err = t\<lparr>t_err := Some err\<rparr>"

text \<open>
  The goroutine \<^verbatim>\<open>Follow\<close> starts. Its three \<^verbatim>\<open>defer\<close>s run when
  \<^verbatim>\<open>tailLoop\<close> has returned, last one first. \<^verbatim>\<open>defer file.Close()\<close> takes its
  receiver when the \<^verbatim>\<open>defer\<close> statement runs: the \<^verbatim>\<open>file\<close> of \<^verbatim>\<open>Follow\<close>,
  which \<^verbatim>\<open>tailLoop\<close> got by value and cannot reassign. While the loop runs no
  \<^verbatim>\<open>defer\<close> has run.
\<close>

definition followTask ::
  "(fileInfo \<Rightarrow> fileIdentity) \<Rightarrow> iterEnv list \<Rightarrow> Tailer \<Rightarrow> fptr \<Rightarrow> bufReader \<Rightarrow> fileIdentity
    \<Rightarrow> string \<Rightarrow> Tailer \<times> effect list" where
  "followTask gfi es t file reader fileID path =
     (case tailLoop gfi es file reader fileID path of
        (Running, v, fx) \<Rightarrow> (t, fx)
      | (Returned None, v, fx) \<Rightarrow> (t, fx @ [Close file, CloseLines, CloseDone])
      | (Returned (Some err), v, fx) \<Rightarrow>
          (setErr t err, fx @ [SetErr err, Close file, CloseLines, CloseDone]))"

text \<open>
  \<^verbatim>\<open>Follow\<close> returns as soon as the goroutine is started; the model hands back what
  it returns, with the \<^verbatim>\<open>Tailer\<close> as the goroutine leaves it, and all effects:
  those of \<^verbatim>\<open>Follow\<close> itself up to \<open>Go\<close>, then the goroutine's.
\<close>

definition Follow ::
  "(fileInfo \<Rightarrow> fileIdentity) \<Rightarrow> openObs \<Rightarrow> iterEnv list \<Rightarrow> string \<Rightarrow> Option list
    \<Rightarrow> (Tailer option \<times> error option) \<times> effect list" where
  "Follow gfi oo es path opts =
     (let cfg = foldl (\<lambda>cfg opt. opt cfg) defaults opts in
      case openFile gfi oo path cfg of
        (Inl err, fx) \<Rightarrow> ((None, Some (Wrapped ''tailf'' err)), fx)
      | (Inr (file, reader, fileID), fx) \<Rightarrow>
          (case followTask gfi es \<lparr>t_err = None\<rparr> file reader fileID path of
             (t, fx') \<Rightarrow> ((Some t, None), fx @ [MakeLines 64, MakeDone, Go] @ fx')))"

subsection \<open>Reading the effects\<close>

text \<open>The lines sent on \<^verbatim>\<open>t.lines\<close>, in order.\<close>

fun sent :: "effect list \<Rightarrow> Line list" where
  "sent [] = []"
| "sent (Send l # fx) = l # sent fx"
| "sent (x # fx) = sent fx"

text \<open>The handles opened and not closed since.\<close>

fun openHandles :: "effect list \<Rightarrow> fptr list \<Rightarrow> fptr list" where
  "openHandles [] hs = hs"
| "openHandles (Open p f # fx) hs = openHandles fx (f # hs)"
| "openHandles (Close f # fx) hs = openHandles fx (removeAll f hs)"
| "openHandles (x # fx) hs = openHandles fx hs"

subsection \<open>The line assembler, as the specification words it\<close>

text \<open>
  \<^verbatim>\<open>ReadString\<close> ``returns err != nil if and only if the returned data does not end in
  delim'' (package bufio): \<open>readContract\<close> says so of one answer of the reader.
\<close>

definition endsWithNL :: "string \<Rightarrow> bool" where
  "endsWithNL s = (s \<noteq> [] \<and> last s = CHR 0x0A)"

definition readContract :: "string \<times> error option \<Rightarrow> bool" where
  "readContract r = (case r of (line, err) \<Rightarrow> (err = None) = endsWithNL line)"

text \<open>The fourth value \<^verbatim>\<open>checkFileState\<close> returns.\<close>

definition reopenedFlag ::
  "(fptr \<times> bufReader \<times> fileIdentity \<times> bool \<times> error option) \<times> effect list \<Rightarrow> bool" where
  "reopenedFlag r = (case r of ((file', reader', fileID', b, err), fx) \<Rightarrow> b)"

text \<open>
  The specification's assembler over the data of successive reads, from a pending buffer:
  a read without terminator adds its bytes to the pending buffer and yields nothing; a
  read with a terminator yields the pending buffer followed by the read, trailing
  carriage returns and line feeds stripped, and empties the buffer; a line that is empty
  then is dropped. The result is the lines and the buffer left.
\<close>

fun assemble :: "string \<Rightarrow> string list \<Rightarrow> string list \<times> string" where
  "assemble pending [] = ([], pending)"
| "assemble pending (seg # segs) =
     (if endsWithNL seg
      then (let l = TrimRight (pending @ seg) crlf;
                (ls, p) = assemble [] segs
            in (if l = [] then ls else l # ls, p))
      else assemble (pending @ seg) segs)"

subsection \<open>Sample environments\<close>

text \<open>
  Concrete answers of the environment, for the instances below. The held file has device 1
  and inode 5; \<open>heldInfo n\<close> is its metadata at size \<open>n\<close>, \<open>otherInfo n\<close> that of a
  different file (inode 7). \<open>sameFile pos n\<close>: the handle stands at \<open>pos\<close>, the file has
  \<open>n\<close> bytes and the path still names it. \<open>rotatedAway pos n\<close>: the handle stands at
  the end of the held file and the path names the other file, which opens as handle 4.
\<close>

definition heldInfo :: "int \<Rightarrow> fileInfo" where
  "heldInfo n = \<lparr>fi_size = n, fi_sys = Some \<lparr>st_dev = 1, st_ino = 5\<rparr>\<rparr>"

definition otherInfo :: "int \<Rightarrow> fileInfo" where
  "otherInfo n = \<lparr>fi_size = n, fi_sys = Some \<lparr>st_dev = 1, st_ino = 7\<rparr>\<rparr>"

definition heldID :: fileIdentity where
  "heldID = \<lparr>dev = 1, ino = 5\<rparr>"

definition sameFile :: "int \<Rightarrow> int \<Rightarrow> fsObs" where
  "sameFile pos n =
     \<lparr>seekCur = Inr pos, fstat = Inr (heldInfo n), seekStart = None,
      pathStat = Inr (heldInfo n), openPath = Inr 4, newStat = Inr (heldInfo n)\<rparr>"

definition rotatedAway :: "int \<Rightarrow> int \<Rightarrow> fsObs" where
  "rotatedAway pos n =
     \<lparr>seekCur = Inr pos, fstat = Inr (heldInfo pos), seekStart = None,
      pathStat = Inr (otherInfo n), openPath = Inr 4, newStat = Inr (otherInfo n)\<rparr>"

text \<open>
  \<open>atEOF s ob\<close>: the read returns \<open>s\<close> and \<^verbatim>\<open>io.EOF\<close>, the state check meets
  \<open>ob\<close>. \<open>gotLine s t\<close>: the read returns \<open>s\<close> and a line feed, at time \<open>t\<close>, and the
  send is taken. \<open>cancelled\<close>: \<^verbatim>\<open>ctx.Done()\<close> is ready.
\<close>

definition atEOF :: "string \<Rightarrow> fsObs \<Rightarrow> iterEnv" where
  "atEOF s ob = \<lparr>ctxDone = False, readString = (s, Some EOF), obs = ob, now = 0, sendWins = True\<rparr>"

definition gotLine :: "string \<Rightarrow> int \<Rightarrow> iterEnv" where
  "gotLine s t =
     \<lparr>ctxDone = False, readString = (s @ [CHR 0x0A], None), obs = sameFile 0 0, now = t,
      sendWins = True\<rparr>"

definition cancelled :: iterEnv where
  "cancelled =
     \<lparr>ctxDone = True, readString = ([], Some EOF), obs = sameFile 0 0, now = 0, sendWins = False\<rparr>"

text \<open>
  \<open>reopenFails\<close>: as \<open>rotatedAway 3 0\<close>, but the other file cannot be opened.
  \<open>sampleRun\<close>: \<open>par\<close> is read to the end of the file; the path then names another
  file that cannot be opened; the file is truncated; \<open>tial\<close>, a carriage return and a
  line feed are read, then a lone line feed, then \<open>x\<close> without terminator.
\<close>

definition reopenFails :: fsObs where
  "reopenFails = (rotatedAway 3 0)\<lparr>openPath := Inl (OSError ''permission denied'')\<rparr>"

definition sampleRun :: "iterEnv list" where
  "sampleRun =
     [atEOF ''par'' (sameFile 3 3), atEOF [] reopenFails, atEOF [] (sameFile 3 0),
      gotLine (''tial'' @ [CHR 0x0D]) 7, gotLine [] 8, atEOF ''x'' (sameFile 1 1)]"

section \<open>Auxiliary facts\<close>

lemma sent_append: "sent (fx @ fx') = sent fx @ sent fx'"
  by (induction fx rule: sent.induct) auto

text \<open>A run that is still going is continued by the passes that follow.\<close>

lemma forLoop_append:
  "forLoop gfi path es v = (Running, v', fx) \<Longrightarrow>
   forLoop gfi path (es @ es') v =
     (case forLoop gfi path es' v' of (out, v'', fx') \<Rightarrow> (out, v'', fx @ fx'))"
proof (induction es arbitrary: v fx)
  case Nil
  then show ?case by (auto split: prod.splits)
next
  case (Cons e es)
  then show ?case
    by (auto split: prod.splits flow.splits)
qed

text \<open>The state check reports a reopen only from the rotation branch.\<close>

lemma checkFileState_reopened_only_if:
  "checkFileState gfi ob file reader fileID path = ((file', reader', fileID', True, err), fx) \<Longrightarrow>
   \<exists>pathInfo. pathStat ob = Inr pathInfo \<and> gfi pathInfo \<noteq> fileID \<and>
      gfi pathInfo \<noteq> fileIdentity_zero"
  by (auto simp: checkFileState_def Let_def split: sum.splits option.splits if_splits)

text \<open>
  Once \<^verbatim>\<open>tailLoop\<close> has returned, the goroutine ends with: close the handle
  \<^verbatim>\<open>Follow\<close> opened, close \<^verbatim>\<open>t.lines\<close>, close \<^verbatim>\<open>t.done\<close>.
\<close>

lemma followTask_shutdown_order:
  "tailLoop gfi es file reader fileID path = (Returned r, v, fx) \<Longrightarrow>
   \<exists>fx'. snd (followTask gfi es t file reader fileID path) = fx' @ [Close file, CloseLines, CloseDone]"
  by (cases r) (auto simp: followTask_def)

section \<open>Truncation\<close>

text \<open>
  C1, as the code has it. When the size reported through the held handle is smaller than
  the handle's position and the seek succeeds, the state check seeks the held handle to
  offset zero and resets the reader on it: no open, no close, the same handle and identity,
  \<open>reopened\<close> false, no error. The loop does not discard the pending bytes: after the
  pass its \<^verbatim>\<open>partialLine\<close> is what was buffered before followed by the bytes of this
  read; and when the read of the next pass yields a terminator, the line of that pass is
  this buffer followed by the read, stripped, so what was buffered before the truncation
  is part of it.
\<close>

theorem truncation_keeps_partialLine:
  assumes "seekCur (obs e) = Inr pos" and "fstat (obs e) = Inr st" and "fi_size st < pos"
    and "seekStart (obs e) = None"
    and "\<not> ctxDone e" and "readString e = (line, Some EOF)"
  shows "checkFileState gfi (obs e) file reader fileID path =
           ((file, Reset reader file, fileID, False, None), [SeekStart file, ReaderReset file]) \<and>
         loopBody gfi path e \<lparr>v_file = file, v_reader = reader, v_fileID = fileID, partialLine = p\<rparr> =
           (Continue,
            \<lparr>v_file = file, v_reader = Reset reader file, v_fileID = fileID, partialLine = p @ line\<rparr>,
            [SeekStart file, ReaderReset file, ReaderReset file, Wait]) \<and>
         (\<not> ctxDone e' \<and> readString e' = (line', None) \<longrightarrow>
            forLoop gfi path [e, e']
                \<lparr>v_file = file, v_reader = reader, v_fileID = fileID, partialLine = p\<rparr> =
              (let l = TrimRight (p @ line @ line') crlf;
                   v' = \<lparr>v_file = file, v_reader = Reset reader file, v_fileID = fileID,
                         partialLine = []\<rparr>;
                   fx = [SeekStart file, ReaderReset file, ReaderReset file, Wait]
               in if l = [] then (Running, v', fx)
                  else if sendWins e' then (Running, v', fx @ [Send \<lparr>Text = l, Time = now e'\<rparr>])
                  else (Returned None, v', fx)))"
proof -
  have c: "checkFileState gfi (obs e) file reader fileID path =
      ((file, Reset reader file, fileID, False, None), [SeekStart file, ReaderReset file])"
    using assms(1-4) by (simp add: checkFileState_def)
  have "Reset (Reset reader file) file = Reset reader file"
    by (simp add: Reset_def)
  with c assms(5,6) have b: "loopBody gfi path e
      \<lparr>v_file = file, v_reader = reader, v_fileID = fileID, partialLine = p\<rparr> =
      (Continue,
       \<lparr>v_file = file, v_reader = Reset reader file, v_fileID = fileID, partialLine = p @ line\<rparr>,
       [SeekStart file, ReaderReset file, ReaderReset file, Wait])"
    by (simp add: loopBody_def Let_def)
  have n: "\<not> ctxDone e' \<and> readString e' = (line', None) \<longrightarrow>
      loopBody gfi path e'
        \<lparr>v_file = file, v_reader = Reset reader file, v_fileID = fileID, partialLine = p @ line\<rparr> =
      (let l = TrimRight (p @ line @ line') crlf;
           v' = \<lparr>v_file = file, v_reader = Reset reader file, v_fileID = fileID, partialLine = []\<rparr>
       in if l = [] then (Continue, v', [])
          else if sendWins e' then (Continue, v', [Send \<lparr>Text = l, Time = now e'\<rparr>])
          else (Return None, v', []))"
    by (auto simp: loopBody_def Let_def)
  show ?thesis using c b n by (auto simp: Let_def)
qed

text \<open>
  An instance: \<open>abc\<close> is pending, the truncation to length zero is detected, and the
  next read is \<open>new\<close> with a line feed.
\<close>

theorem truncation_keeps_partialLine_witness:
  "fi_size (heldInfo 0) < 3 \<and>
   checkFileState getFileIdentity (obs (atEOF [] (sameFile 3 0))) 3 (NewReader 3) heldID ''app.log'' =
     ((3, NewReader 3, heldID, False, None), [SeekStart 3, ReaderReset 3]) \<and>
   loopBody getFileIdentity ''app.log'' (atEOF [] (sameFile 3 0))
       \<lparr>v_file = 3, v_reader = NewReader 3, v_fileID = heldID, partialLine = ''abc''\<rparr> =
     (Continue,
      \<lparr>v_file = 3, v_reader = NewReader 3, v_fileID = heldID, partialLine = ''abc''\<rparr>,
      [SeekStart 3, ReaderReset 3, ReaderReset 3, Wait]) \<and>
   forLoop getFileIdentity ''app.log'' [atEOF [] (sameFile 3 0), gotLine ''new'' 9]
       \<lparr>v_file = 3, v_reader = NewReader 3, v_fileID = heldID, partialLine = ''abc''\<rparr> =
     (Running,
      \<lparr>v_file = 3, v_reader = NewReader 3, v_fileID = heldID, partialLine = []\<rparr>,
      [SeekStart 3, ReaderReset 3, ReaderReset 3, Wait, Send \<lparr>Text = ''abcnew'', Time = 9\<rparr>])"
proof -
  have h1: "seekCur (obs (atEOF [] (sameFile 3 0))) = Inr 3"
    and h2: "fstat (obs (atEOF [] (sameFile 3 0))) = Inr (heldInfo 0)"
    and h3: "fi_size (heldInfo 0) < 3"
    and h4: "seekStart (obs (atEOF [] (sameFile 3 0))) = None"
    and h5: "\<not> ctxDone (atEOF [] (sameFile 3 0))"
    and h6: "readString (atEOF [] (sameFile 3 0)) = ([], Some EOF)"
    by (simp_all add: atEOF_def sameFile_def heldInfo_def)
  have r: "Reset (NewReader 3) 3 = NewReader 3"
    by (simp add: Reset_def NewReader_def NewReaderSize_def)
  have g: "\<not> ctxDone (gotLine ''new'' 9)" "readString (gotLine ''new'' 9) = (''new'' @ [CHR 0x0A], None)"
    "sendWins (gotLine ''new'' 9)" "now (gotLine ''new'' 9) = 9"
    by (simp_all add: gotLine_def)
  have t: "TrimRight (''abc'' @ [] @ ''new'' @ [CHR 0x0A]) crlf = ''abcnew''"
    by (simp add: TrimRight_def crlf_def)
  show ?thesis
    using truncation_keeps_partialLine [OF h1 h2 h3 h4 h5 h6,
        where gfi = getFileIdentity and ?file = 3 and reader = "NewReader 3" and fileID = heldID
          and path = "''app.log''" and p = "''abc''" and e' = "gotLine ''new'' 9"
          and line' = "''new'' @ [CHR 0x0A]"] h3 r g t
    by (simp add: Let_def del: forLoop.simps)
qed

text \<open>
  The claim as worded fails. The file holds \<open>abc\<close> without a terminator and is read to its
  end (first pass); it is truncated to length zero, which the second pass detects
  (\<open>SeekStart 3\<close>); then \<open>new\<close> and a line feed are written and read. The line sent after
  the truncation is \<open>abcnew\<close>: it starts with the bytes buffered before it.
\<close>

theorem truncation_keeps_stale_bytes:
  "tailLoop getFileIdentity
     [atEOF ''abc'' (sameFile 3 3), atEOF [] (sameFile 3 0), gotLine ''new'' 9]
     3 (NewReader 3) heldID ''app.log'' =
   (Running,
    \<lparr>v_file = 3, v_reader = NewReader 3, v_fileID = heldID, partialLine = []\<rparr>,
    [ReaderReset 3, Wait, SeekStart 3, ReaderReset 3, ReaderReset 3, Wait,
     Send \<lparr>Text = ''abcnew'', Time = 9\<rparr>])"
  by (simp add: tailLoop_def loopBody_def checkFileState_def getFileIdentity_def
        fileIdentity_zero_def TrimRight_def crlf_def Reset_def NewReader_def NewReaderSize_def
        heldInfo_def heldID_def sameFile_def atEOF_def gotLine_def)

section \<open>Line assembly\<close>

text \<open>Whether the state check reports a reopen depends on the answers and the held identity only.\<close>

lemma reopenedFlag_independent:
  "reopenedFlag (checkFileState gfi ob file reader fileID path) =
   reopenedFlag (checkFileState gfi ob file' reader' fileID path')"
  by (auto simp: reopenedFlag_def checkFileState_def Let_def split: sum.splits option.splits)

lemma checkFileState_not_reopened:
  "checkFileState gfi ob file reader fileID path = ((file', reader', fileID', False, err), fx) \<Longrightarrow>
   file' = file \<and> fileID' = fileID \<and> sent fx = []"
  by (auto simp: checkFileState_def Let_def split: sum.splits option.splits if_splits)

text \<open>The state check sends no line.\<close>

lemma checkFileState_sends_nothing:
  "sent (snd (checkFileState gfi ob file reader fileID path)) = []"
  by (simp add: checkFileState_def Let_def split: sum.splits option.splits)

text \<open>A pass whose read returns a line: what it sends and what it leaves pending.\<close>

lemma loopBody_line:
  "\<not> ctxDone e \<Longrightarrow> readString e = (line, None) \<Longrightarrow>
   loopBody gfi path e v =
     (let l = TrimRight (partialLine v @ line) crlf; v' = v\<lparr>partialLine := []\<rparr>
      in if l = [] then (Continue, v', [])
         else if sendWins e then (Continue, v', [Send \<lparr>Text = l, Time = now e\<rparr>])
         else (Return None, v', []))"
  by (auto simp: loopBody_def Let_def)

text \<open>A pass whose read returns an error sends nothing.\<close>

lemma loopBody_error_sends_nothing:
  assumes "snd (readString e) \<noteq> None"
  shows "sent (snd (snd (loopBody gfi path e v))) = []"
proof (cases "ctxDone e")
  case True
  then show ?thesis by (simp add: loopBody_def)
next
  case False
  obtain line x where r: "readString e = (line, Some x)"
    using assms by (cases "readString e") auto
  show ?thesis
  proof (cases "x = EOF")
    case False
    with \<open>\<not> ctxDone e\<close> r show ?thesis by (simp add: loopBody_def)
  next
    case True
    obtain f' r' i' b cerr fx where c:
      "checkFileState gfi (obs e) (v_file v) (v_reader v) (v_fileID v) path = ((f', r', i', b, cerr), fx)"
      by (metis prod_cases3 prod.exhaust)
    have s: "sent fx = []"
      using checkFileState_sends_nothing[of gfi "obs e" "v_file v" "v_reader v" "v_fileID v" path] c
      by simp
    show ?thesis
      using \<open>\<not> ctxDone e\<close> r True c s
      by (cases cerr) (simp_all add: loopBody_def Let_def sent_append)
  qed
qed

text \<open>
  One pass under the reader's contract and without a reopen: it returns, having sent
  nothing, or it continues with the same identity and does to the lines and the pending
  buffer what the assembler does with the data of the read.
\<close>

lemma loopBody_assembles:
  assumes "readContract (readString e)"
    and "\<not> reopenedFlag (checkFileState gfi (obs e) (v_file v) (v_reader v) (v_fileID v) path)"
  shows "(\<exists>r v' fx. loopBody gfi path e v = (Return r, v', fx) \<and> sent fx = []) \<or>
         (\<exists>v' fx. loopBody gfi path e v = (Continue, v', fx) \<and> v_fileID v' = v_fileID v \<and>
            (if endsWithNL (fst (readString e))
             then partialLine v' = [] \<and>
                  map Text (sent fx) =
                    (let l = TrimRight (partialLine v @ fst (readString e)) crlf
                     in if l = [] then [] else [l])
             else partialLine v' = partialLine v @ fst (readString e) \<and> sent fx = []))"
proof (cases "ctxDone e")
  case True
  then show ?thesis by (simp add: loopBody_def)
next
  case False
  obtain line err where r: "readString e = (line, err)"
    by (cases "readString e")
  show ?thesis
  proof (cases err)
    case None
    with r assms(1) have nl: "endsWithNL line" by (simp add: readContract_def)
    have l: "loopBody gfi path e v =
     (let l = TrimRight (partialLine v @ line) crlf; v' = v\<lparr>partialLine := []\<rparr>
      in if l = [] then (Continue, v', [])
         else if sendWins e then (Continue, v', [Send \<lparr>Text = l, Time = now e\<rparr>])
         else (Return None, v', []))"
      using loopBody_line[OF False] r None by simp
    show ?thesis
    proof (cases "TrimRight (partialLine v @ line) crlf = []")
      case True
      with l nl r show ?thesis by (simp add: Let_def)
    next
      case False
      with l nl r show ?thesis by (cases "sendWins e") (simp_all add: Let_def)
    qed
  next
    case (Some x)
    with r assms(1) have nl: "\<not> endsWithNL line" by (simp add: readContract_def)
    show ?thesis
    proof (cases "x = EOF")
      case False
      with \<open>\<not> ctxDone e\<close> r Some show ?thesis by (simp add: loopBody_def)
    next
      case True
      obtain f' r' i' b cerr fx where c:
        "checkFileState gfi (obs e) (v_file v) (v_reader v) (v_fileID v) path = ((f', r', i', b, cerr), fx)"
        by (metis prod_cases3 prod.exhaust)
      with assms(2) have b: "b = False" by (simp add: reopenedFlag_def)
      from checkFileState_not_reopened[OF c[unfolded b]]
      have k: "f' = v_file v" "i' = v_fileID v" "sent fx = []" by simp_all
      show ?thesis
        using \<open>\<not> ctxDone e\<close> r Some True c b k nl
        by (cases cerr) (simp_all add: loopBody_def Let_def sent_append)
    qed
  qed
qed

lemma assemble_cons_line:
  "endsWithNL seg \<Longrightarrow>
   assemble p (seg # segs) =
     ((let l = TrimRight (p @ seg) crlf in if l = [] then [] else [l]) @ fst (assemble [] segs),
      snd (assemble [] segs))"
  by (simp add: Let_def split: prod.splits)

lemma assemble_cons_partial:
  "\<not> endsWithNL seg \<Longrightarrow> assemble p (seg # segs) = assemble (p @ seg) segs"
  by simp

lemma forLoop_assembles:
  assumes "\<forall>e \<in> set es. readContract (readString e) \<and>
             \<not> reopenedFlag (checkFileState gfi (obs e) file0 reader0 (v_fileID v) path)"
  shows "\<exists>out v' fx k. forLoop gfi path es v = (out, v', fx) \<and> k \<le> length es \<and>
           map Text (sent fx) =
             fst (assemble (partialLine v) (map (\<lambda>e. fst (readString e)) (take k es))) \<and>
           (out = Running \<longrightarrow> k = length es \<and>
              partialLine v' = snd (assemble (partialLine v) (map (\<lambda>e. fst (readString e)) es)))"
  using assms
proof (induction es arbitrary: v)
  case Nil
  then show ?case by simp
next
  case (Cons e es)
  let ?d = "\<lambda>e. fst (readString e)"
  have c: "readContract (readString e)" using Cons.prems by simp
  have "\<not> reopenedFlag (checkFileState gfi (obs e) file0 reader0 (v_fileID v) path)"
    using Cons.prems by simp
  then have n: "\<not> reopenedFlag (checkFileState gfi (obs e) (v_file v) (v_reader v) (v_fileID v) path)"
    using reopenedFlag_independent by blast
  from loopBody_assembles[OF c n] show ?case
  proof
    assume "\<exists>r v' fx. loopBody gfi path e v = (Return r, v', fx) \<and> sent fx = []"
    then obtain r v1 fx1 where b: "loopBody gfi path e v = (Return r, v1, fx1)" and s: "sent fx1 = []"
      by blast
    have "forLoop gfi path (e # es) v = (Returned r, v1, fx1) \<and> (0::nat) \<le> length (e # es) \<and>
        map Text (sent fx1) = fst (assemble (partialLine v) (map ?d (take 0 (e # es)))) \<and>
        (Returned r = Running \<longrightarrow> 0 = length (e # es) \<and>
           partialLine v1 = snd (assemble (partialLine v) (map ?d (e # es))))"
      using b s by simp
    then show ?thesis by blast
  next
    assume "\<exists>v' fx. loopBody gfi path e v = (Continue, v', fx) \<and> v_fileID v' = v_fileID v \<and>
            (if endsWithNL (fst (readString e))
             then partialLine v' = [] \<and>
                  map Text (sent fx) =
                    (let l = TrimRight (partialLine v @ fst (readString e)) crlf
                     in if l = [] then [] else [l])
             else partialLine v' = partialLine v @ fst (readString e) \<and> sent fx = [])"
    then obtain v1 fx1 where b: "loopBody gfi path e v = (Continue, v1, fx1)"
      and i: "v_fileID v1 = v_fileID v"
      and a: "if endsWithNL (?d e)
             then partialLine v1 = [] \<and>
                  map Text (sent fx1) =
                    (let l = TrimRight (partialLine v @ ?d e) crlf in if l = [] then [] else [l])
             else partialLine v1 = partialLine v @ ?d e \<and> sent fx1 = []"
      by blast
    have "\<forall>e \<in> set es. readContract (readString e) \<and>
             \<not> reopenedFlag (checkFileState gfi (obs e) file0 reader0 (v_fileID v1) path)"
      using Cons.prems i by simp
    from Cons.IH[OF this] obtain out v2 fx2 k where
      f: "forLoop gfi path es v1 = (out, v2, fx2)" and kl: "k \<le> length es"
      and s2: "map Text (sent fx2) = fst (assemble (partialLine v1) (map ?d (take k es)))"
      and p2: "out = Running \<longrightarrow> k = length es \<and>
          partialLine v2 = snd (assemble (partialLine v1) (map ?d es))"
      by blast
    have run: "forLoop gfi path (e # es) v = (out, v2, fx1 @ fx2)"
      using b f by simp
    have tk: "map ?d (take (Suc k) (e # es)) = ?d e # map ?d (take k es)"
      by simp
    have full: "map ?d (e # es) = ?d e # map ?d es"
      by simp
    have texts: "map Text (sent (fx1 @ fx2)) =
        fst (assemble (partialLine v) (map ?d (take (Suc k) (e # es))))"
    proof (cases "endsWithNL (?d e)")
      case True
      with a have "partialLine v1 = []" and "map Text (sent fx1) =
          (let l = TrimRight (partialLine v @ ?d e) crlf in if l = [] then [] else [l])"
        by simp_all
      then show ?thesis
        unfolding tk assemble_cons_line[OF True] using s2 by (simp add: sent_append)
    next
      case False
      with a have "partialLine v1 = partialLine v @ ?d e" and "sent fx1 = []"
        by simp_all
      then show ?thesis
        unfolding tk assemble_cons_partial[OF False] using s2 by (simp add: sent_append)
    qed
    have pend: "out = Running \<longrightarrow> Suc k = length (e # es) \<and>
        partialLine v2 = snd (assemble (partialLine v) (map ?d (e # es)))"
    proof (cases "endsWithNL (?d e)")
      case True
      with a have "partialLine v1 = []" by simp
      then show ?thesis
        unfolding full assemble_cons_line[OF True] using p2 by simp
    next
      case False
      with a have "partialLine v1 = partialLine v @ ?d e" by simp
      then show ?thesis
        unfolding full assemble_cons_partial[OF False] using p2 by simp
    qed
    have "Suc k \<le> length (e # es)" using kl by simp
    with run texts pend show ?thesis by blast
  qed
qed

text \<open>
  What the assembler of the specification yields on reads without terminator followed by
  one read with a terminator: nothing before the terminator, then one line, the
  concatenation of everything read since the pending buffer was last emptied, stripped;
  the buffer is empty afterwards.
\<close>

lemma assemble_no_terminator:
  "\<forall>s \<in> set segs. \<not> endsWithNL s \<Longrightarrow> assemble p segs = ([], p @ concat segs)"
  by (induction segs arbitrary: p) auto

lemma assemble_until_terminator:
  assumes "\<forall>s \<in> set segs. \<not> endsWithNL s" and "endsWithNL seg"
  shows "assemble p (segs @ [seg]) =
           (let l = TrimRight (p @ concat segs @ seg) crlf in (if l = [] then [] else [l], []))"
  using assms by (induction segs arbitrary: p) (auto simp: Let_def)

text \<open>
  C2, as the code has it. In every pass: a read that returns an error, hence no
  terminator, sends no line; a read that returns a line sends at most one line, whose
  text is the pending buffer followed by the read, stripped of trailing carriage returns
  and line feeds (none when that is empty, or when the cancellation is taken at the
  send), and leaves the pending buffer empty. The pending buffer is everything read since
  the previous terminator only as long as the file is not reopened, for a reopen empties
  it: over any passes in which the reads obey the reader's contract and no state check
  reports a reopen (cancellation, failing calls, truncation and a failed reopen
  included), the texts sent are exactly what the specification's assembler yields, from
  an empty buffer, on the data of the reads of the passes the loop completed; and while
  the loop is running these are all the passes and \<^verbatim>\<open>partialLine\<close> is the assembler's
  pending buffer.
\<close>

theorem tailLoop_assembles_lines:
  "(snd (readString e) \<noteq> None \<longrightarrow> sent (snd (snd (loopBody gfi path e v))) = []) \<and>
   (\<not> ctxDone e \<and> readString e = (line, None) \<longrightarrow>
      loopBody gfi path e v =
        (let l = TrimRight (partialLine v @ line) crlf; v' = v\<lparr>partialLine := []\<rparr>
         in if l = [] then (Continue, v', [])
            else if sendWins e then (Continue, v', [Send \<lparr>Text = l, Time = now e\<rparr>])
            else (Return None, v', []))) \<and>
   ((\<forall>e \<in> set es. readContract (readString e) \<and>
        \<not> reopenedFlag (checkFileState gfi (obs e) file reader fileID path)) \<longrightarrow>
      (case tailLoop gfi es file reader fileID path of
         (out, v', fx) \<Rightarrow>
           \<exists>k \<le> length es.
             map Text (sent fx) = fst (assemble [] (map (\<lambda>e. fst (readString e)) (take k es))) \<and>
             (out = Running \<longrightarrow> k = length es \<and>
                partialLine v' = snd (assemble [] (map (\<lambda>e. fst (readString e)) es)))))"
proof -
  have a: "snd (readString e) \<noteq> None \<longrightarrow> sent (snd (snd (loopBody gfi path e v))) = []"
    using loopBody_error_sends_nothing by blast
  have b: "\<not> ctxDone e \<and> readString e = (line, None) \<longrightarrow>
      loopBody gfi path e v =
        (let l = TrimRight (partialLine v @ line) crlf; v' = v\<lparr>partialLine := []\<rparr>
         in if l = [] then (Continue, v', [])
            else if sendWins e then (Continue, v', [Send \<lparr>Text = l, Time = now e\<rparr>])
            else (Return None, v', []))"
    using loopBody_line by blast
  have c: "(\<forall>e \<in> set es. readContract (readString e) \<and>
        \<not> reopenedFlag (checkFileState gfi (obs e) file reader fileID path)) \<longrightarrow>
      (case tailLoop gfi es file reader fileID path of
         (out, v', fx) \<Rightarrow>
           \<exists>k \<le> length es.
             map Text (sent fx) = fst (assemble [] (map (\<lambda>e. fst (readString e)) (take k es))) \<and>
             (out = Running \<longrightarrow> k = length es \<and>
                partialLine v' = snd (assemble [] (map (\<lambda>e. fst (readString e)) es))))"
  proof
    assume h: "\<forall>e \<in> set es. readContract (readString e) \<and>
        \<not> reopenedFlag (checkFileState gfi (obs e) file reader fileID path)"
    let ?v = "\<lparr>v_file = file, v_reader = reader, v_fileID = fileID, partialLine = []\<rparr>"
    have "\<forall>e \<in> set es. readContract (readString e) \<and>
        \<not> reopenedFlag (checkFileState gfi (obs e) file reader (v_fileID ?v) path)"
      using h by simp
    from forLoop_assembles[OF this] obtain out v' fx k where
      "forLoop gfi path es ?v = (out, v', fx)" and "k \<le> length es"
      and "map Text (sent fx) = fst (assemble [] (map (\<lambda>e. fst (readString e)) (take k es)))"
      and "out = Running \<longrightarrow> k = length es \<and>
         partialLine v' = snd (assemble [] (map (\<lambda>e. fst (readString e)) es))"
      by auto
    then show "case tailLoop gfi es file reader fileID path of
         (out, v', fx) \<Rightarrow>
           \<exists>k \<le> length es.
             map Text (sent fx) = fst (assemble [] (map (\<lambda>e. fst (readString e)) (take k es))) \<and>
             (out = Running \<longrightarrow> k = length es \<and>
                partialLine v' = snd (assemble [] (map (\<lambda>e. fst (readString e)) es)))"
      unfolding tailLoop_def by simp blast
  qed
  show ?thesis using a b c by blast
qed

text \<open>
  An instance, \<open>sampleRun\<close>: a failed reopen and a truncation lie between the first
  bytes of the line and its terminator, and the line sent is \<open>partial\<close>.
\<close>

theorem tailLoop_assembles_lines_witness:
  "list_all (\<lambda>e. readContract (readString e) \<and>
       \<not> reopenedFlag (checkFileState getFileIdentity (obs e) 3 (NewReader 3) heldID ''app.log''))
     sampleRun \<and>
   tailLoop getFileIdentity sampleRun 3 (NewReader 3) heldID ''app.log'' =
     (Running,
      \<lparr>v_file = 3, v_reader = NewReader 3, v_fileID = heldID, partialLine = ''x''\<rparr>,
      [ReaderReset 3, Wait, ReaderReset 3, Wait, SeekStart 3, ReaderReset 3, ReaderReset 3, Wait,
       Send \<lparr>Text = ''partial'', Time = 7\<rparr>, ReaderReset 3, Wait]) \<and>
   assemble [] (map (\<lambda>e. fst (readString e)) sampleRun) = ([''partial''], ''x'')"
proof -
  let ?es = "[atEOF ''par'' (sameFile 3 3), atEOF [] reopenFails, atEOF [] (sameFile 3 0),
      gotLine (''tial'' @ [CHR 0x0D]) 7, gotLine [] 8, atEOF ''x'' (sameFile 1 1)]"
  have h: "\<forall>e \<in> set sampleRun. readContract (readString e) \<and>
       \<not> reopenedFlag (checkFileState getFileIdentity (obs e) 3 (NewReader 3) heldID ''app.log'')"
    by (simp add: sampleRun_def readContract_def endsWithNL_def reopenedFlag_def checkFileState_def
          getFileIdentity_def fileIdentity_zero_def reopenFails_def
          heldInfo_def otherInfo_def heldID_def sameFile_def rotatedAway_def atEOF_def gotLine_def)
  have t: "tailLoop getFileIdentity sampleRun 3 (NewReader 3) heldID ''app.log'' =
     (Running,
      \<lparr>v_file = 3, v_reader = NewReader 3, v_fileID = heldID, partialLine = ''x''\<rparr>,
      [ReaderReset 3, Wait, ReaderReset 3, Wait, SeekStart 3, ReaderReset 3, ReaderReset 3, Wait,
       Send \<lparr>Text = ''partial'', Time = 7\<rparr>, ReaderReset 3, Wait])"
    by (simp add: sampleRun_def tailLoop_def loopBody_def checkFileState_def getFileIdentity_def
          fileIdentity_zero_def TrimRight_def crlf_def Reset_def NewReader_def NewReaderSize_def
          reopenFails_def heldInfo_def otherInfo_def heldID_def sameFile_def rotatedAway_def
          atEOF_def gotLine_def)
  have "\<exists>k \<le> length sampleRun.
      map Text (sent [ReaderReset 3, Wait, ReaderReset 3, Wait, SeekStart 3, ReaderReset 3,
         ReaderReset 3, Wait, Send \<lparr>Text = ''partial'', Time = 7\<rparr>, ReaderReset 3, Wait]) =
        fst (assemble [] (map (\<lambda>e. fst (readString e)) (take k sampleRun))) \<and>
      k = length sampleRun \<and>
      ''x'' = snd (assemble [] (map (\<lambda>e. fst (readString e)) sampleRun))"
    using tailLoop_assembles_lines [where gfi = getFileIdentity and es = sampleRun and ?file = 3
        and reader = "NewReader 3" and fileID = heldID and path = "''app.log''"] h t
    by simp
  then have "[''partial''] = fst (assemble [] (map (\<lambda>e. fst (readString e)) sampleRun)) \<and>
      ''x'' = snd (assemble [] (map (\<lambda>e. fst (readString e)) sampleRun))"
    by auto
  then have a: "assemble [] (map (\<lambda>e. fst (readString e)) sampleRun) = ([''partial''], ''x'')"
    by (metis prod.collapse)
  show ?thesis using h t a by (simp add: list_all_iff)
qed

text \<open>
  The claim as worded fails. \<open>abc\<close> is read without terminator to the end of the
  file; the state check of that pass finds the path naming another file and reopens;
  then \<open>new\<close> and a line feed are read from the new file. The bytes read since the
  previous terminator are \<open>abc\<close>, \<open>new\<close> and the line feed, which the
  specification's assembler makes into the line \<open>abcnew\<close>; the line sent is
  \<open>new\<close>.
\<close>

theorem rotation_empties_pending_buffer:
  "tailLoop getFileIdentity [atEOF ''abc'' (rotatedAway 3 0), gotLine ''new'' 9]
      3 (NewReader 3) heldID ''app.log'' =
     (Running,
      \<lparr>v_file = 4, v_reader = NewReader 4, v_fileID = \<lparr>dev = 1, ino = 7\<rparr>, partialLine = []\<rparr>,
      [Open ''app.log'' 4, Close 3, Wait, Send \<lparr>Text = ''new'', Time = 9\<rparr>]) \<and>
   fst (assemble [] [''abc'', ''new'' @ [CHR 0x0A]]) = [''abcnew'']"
  by (simp add: tailLoop_def loopBody_def checkFileState_def getFileIdentity_def
        fileIdentity_zero_def endsWithNL_def TrimRight_def crlf_def Reset_def NewReader_def NewReaderSize_def
        heldInfo_def otherInfo_def heldID_def rotatedAway_def sameFile_def atEOF_def gotLine_def)

section \<open>Rotation\<close>

lemma checkFileState_reopened_iff:
  "checkFileState gfi ob file reader fileID path = ((file', reader', fileID', b, err), fx) \<Longrightarrow>
   b \<longleftrightarrow>
     (\<exists>pos st pathInfo newFile newInfo.
        seekCur ob = Inr pos \<and> fstat ob = Inr st \<and> \<not> fi_size st < pos \<and>
        pathStat ob = Inr pathInfo \<and>
        gfi pathInfo \<noteq> fileID \<and> gfi pathInfo \<noteq> fileIdentity_zero \<and>
        openPath ob = Inr newFile \<and> newStat ob = Inr newInfo)"
  by (auto simp: checkFileState_def Let_def split: sum.splits option.splits if_splits)

lemma checkFileState_reopened_result:
  "checkFileState gfi ob file reader fileID path = ((file', reader', fileID', True, err), fx) \<Longrightarrow>
   \<exists>newFile newInfo. openPath ob = Inr newFile \<and> newStat ob = Inr newInfo \<and>
      file' = newFile \<and> reader' = NewReader newFile \<and> fileID' = gfi newInfo \<and> err = None \<and>
      fx = [Open path newFile, Close file]"
  by (auto simp: checkFileState_def Let_def split: sum.splits option.splits if_splits)

text \<open>
  C3, as the code has it. The state check reports a reopen exactly when the rotation check
  is reached (the seek and the stat on the held handle succeed and the size is not below
  the position), the path resolves, the identity resolved from it differs from the held
  identity and is not the zero identity, and the new file is opened and its stat succeeds.
  On that reopen it returns the new handle, a reader on it and the new handle's identity,
  having closed the old handle, with no error; and the loop, which runs the state check
  when its read has returned \<^verbatim>\<open>io.EOF\<close>, then empties \<^verbatim>\<open>partialLine\<close>.
\<close>

theorem checkFileState_reopen:
  "(case checkFileState gfi (obs e) file reader fileID path of
      ((file', reader', fileID', reopened, err), fx) \<Rightarrow>
        (reopened \<longleftrightarrow>
           (\<exists>pos st pathInfo newFile newInfo.
              seekCur (obs e) = Inr pos \<and> fstat (obs e) = Inr st \<and> \<not> fi_size st < pos \<and>
              pathStat (obs e) = Inr pathInfo \<and>
              gfi pathInfo \<noteq> fileID \<and> gfi pathInfo \<noteq> fileIdentity_zero \<and>
              openPath (obs e) = Inr newFile \<and> newStat (obs e) = Inr newInfo)) \<and>
        (reopened \<longrightarrow>
           (\<exists>newFile newInfo.
              openPath (obs e) = Inr newFile \<and> newStat (obs e) = Inr newInfo \<and>
              file' = newFile \<and> reader' = NewReader newFile \<and> fileID' = gfi newInfo \<and>
              err = None \<and> fx = [Open path newFile, Close file]))) \<and>
   (reopenedFlag (checkFileState gfi (obs e) file reader fileID path) \<and>
    \<not> ctxDone e \<and> readString e = (line, Some EOF) \<longrightarrow>
      (\<exists>newFile newInfo.
         openPath (obs e) = Inr newFile \<and> newStat (obs e) = Inr newInfo \<and>
         loopBody gfi path e \<lparr>v_file = file, v_reader = reader, v_fileID = fileID, partialLine = p\<rparr> =
           (Continue,
            \<lparr>v_file = newFile, v_reader = NewReader newFile, v_fileID = gfi newInfo, partialLine = []\<rparr>,
            [Open path newFile, Close file, Wait])))"
proof -
  obtain f' r' i' b err fx where c:
    "checkFileState gfi (obs e) file reader fileID path = ((f', r', i', b, err), fx)"
    by (metis prod_cases3 prod.exhaust)
  note iff = checkFileState_reopened_iff[OF c]
  have res: "b \<longrightarrow> (\<exists>newFile newInfo.
              openPath (obs e) = Inr newFile \<and> newStat (obs e) = Inr newInfo \<and>
              f' = newFile \<and> r' = NewReader newFile \<and> i' = gfi newInfo \<and>
              err = None \<and> fx = [Open path newFile, Close file])"
  proof
    assume "b"
    with c have "checkFileState gfi (obs e) file reader fileID path = ((f', r', i', True, err), fx)"
      by simp
    from checkFileState_reopened_result[OF this] show "\<exists>newFile newInfo.
              openPath (obs e) = Inr newFile \<and> newStat (obs e) = Inr newInfo \<and>
              f' = newFile \<and> r' = NewReader newFile \<and> i' = gfi newInfo \<and>
              err = None \<and> fx = [Open path newFile, Close file]" .
  qed
  have loop: "reopenedFlag (checkFileState gfi (obs e) file reader fileID path) \<and>
    \<not> ctxDone e \<and> readString e = (line, Some EOF) \<longrightarrow>
      (\<exists>newFile newInfo.
         openPath (obs e) = Inr newFile \<and> newStat (obs e) = Inr newInfo \<and>
         loopBody gfi path e \<lparr>v_file = file, v_reader = reader, v_fileID = fileID, partialLine = p\<rparr> =
           (Continue,
            \<lparr>v_file = newFile, v_reader = NewReader newFile, v_fileID = gfi newInfo, partialLine = []\<rparr>,
            [Open path newFile, Close file, Wait]))"
  proof
    assume a: "reopenedFlag (checkFileState gfi (obs e) file reader fileID path) \<and>
      \<not> ctxDone e \<and> readString e = (line, Some EOF)"
    with c have "b" by (simp add: reopenedFlag_def)
    with res obtain newFile newInfo where o: "openPath (obs e) = Inr newFile"
      "newStat (obs e) = Inr newInfo"
      and k: "f' = newFile" "r' = NewReader newFile" "i' = gfi newInfo" "err = None"
        "fx = [Open path newFile, Close file]"
      by blast
    have "loopBody gfi path e \<lparr>v_file = file, v_reader = reader, v_fileID = fileID, partialLine = p\<rparr> =
           (Continue,
            \<lparr>v_file = newFile, v_reader = NewReader newFile, v_fileID = gfi newInfo, partialLine = []\<rparr>,
            [Open path newFile, Close file, Wait])"
      using a c \<open>b\<close> k by (simp add: loopBody_def Let_def)
    with o show "\<exists>newFile newInfo.
         openPath (obs e) = Inr newFile \<and> newStat (obs e) = Inr newInfo \<and>
         loopBody gfi path e \<lparr>v_file = file, v_reader = reader, v_fileID = fileID, partialLine = p\<rparr> =
           (Continue,
            \<lparr>v_file = newFile, v_reader = NewReader newFile, v_fileID = gfi newInfo, partialLine = []\<rparr>,
            [Open path newFile, Close file, Wait])"
      by blast
  qed
  show ?thesis using c iff res loop by simp
qed

text \<open>
  An instance: the path names another file, which opens as handle 4; \<open>zz\<close> was
  pending and is dropped.
\<close>

theorem checkFileState_reopen_witness:
  "checkFileState getFileIdentity (obs (atEOF ''abc'' (rotatedAway 3 0))) 3 (NewReader 3) heldID ''app.log'' =
     ((4, NewReader 4, \<lparr>dev = 1, ino = 7\<rparr>, True, None), [Open ''app.log'' 4, Close 3]) \<and>
   getFileIdentity (otherInfo 0) \<noteq> heldID \<and> getFileIdentity (otherInfo 0) \<noteq> fileIdentity_zero \<and>
   loopBody getFileIdentity ''app.log'' (atEOF ''abc'' (rotatedAway 3 0))
       \<lparr>v_file = 3, v_reader = NewReader 3, v_fileID = heldID, partialLine = ''zz''\<rparr> =
     (Continue,
      \<lparr>v_file = 4, v_reader = NewReader 4, v_fileID = \<lparr>dev = 1, ino = 7\<rparr>, partialLine = []\<rparr>,
      [Open ''app.log'' 4, Close 3, Wait])"
proof -
  let ?e = "atEOF ''abc'' (rotatedAway 3 0)"
  have c: "checkFileState getFileIdentity (obs ?e) 3 (NewReader 3) heldID ''app.log'' =
     ((4, NewReader 4, \<lparr>dev = 1, ino = 7\<rparr>, True, None), [Open ''app.log'' 4, Close 3])"
    by (simp add: checkFileState_def getFileIdentity_def fileIdentity_zero_def
          heldInfo_def otherInfo_def heldID_def rotatedAway_def atEOF_def)
  have d: "getFileIdentity (otherInfo 0) = \<lparr>dev = 1, ino = 7\<rparr>"
    by (simp add: getFileIdentity_def otherInfo_def)
  have n: "getFileIdentity (otherInfo 0) \<noteq> heldID \<and> getFileIdentity (otherInfo 0) \<noteq> fileIdentity_zero"
    by (simp add: d heldID_def fileIdentity_zero_def)
  have o: "openPath (obs ?e) = Inr 4" "newStat (obs ?e) = Inr (otherInfo 0)"
    "\<not> ctxDone ?e" "readString ?e = (''abc'', Some EOF)"
    by (simp_all add: atEOF_def rotatedAway_def)
  have f: "reopenedFlag (checkFileState getFileIdentity (obs ?e) 3 (NewReader 3) heldID ''app.log'')"
    using c by (simp add: reopenedFlag_def)
  have "loopBody getFileIdentity ''app.log'' ?e
       \<lparr>v_file = 3, v_reader = NewReader 3, v_fileID = heldID, partialLine = ''zz''\<rparr> =
     (Continue,
      \<lparr>v_file = 4, v_reader = NewReader 4, v_fileID = \<lparr>dev = 1, ino = 7\<rparr>, partialLine = []\<rparr>,
      [Open ''app.log'' 4, Close 3, Wait])"
    using checkFileState_reopen [where gfi = getFileIdentity and e = ?e and ?file = 3
        and reader = "NewReader 3" and fileID = heldID and path = "''app.log''" and p = "''zz''"
        and line = "''abc''"] f o d
    by auto
  with c n show ?thesis by simp
qed

text \<open>
  The claim as worded fails. The identity resolved from the path differs from the held one
  and is not the zero identity, but the file at the path cannot be opened: the state
  check does not reopen and returns the held handle, with no error.
\<close>

theorem reopen_fails_when_open_fails:
  "getFileIdentity (otherInfo 0) \<noteq> heldID \<and> getFileIdentity (otherInfo 0) \<noteq> fileIdentity_zero \<and>
   pathStat reopenFails = Inr (otherInfo 0) \<and>
   checkFileState getFileIdentity reopenFails 3 (NewReader 3) heldID ''app.log'' =
     ((3, NewReader 3, heldID, False, None), [])"
  by (simp add: checkFileState_def getFileIdentity_def fileIdentity_zero_def reopenFails_def
        heldInfo_def otherInfo_def heldID_def rotatedAway_def)

lemma loopBody_windows_keeps_handle:
  "loopBody getFileIdentity_windows path e v = (fl, v', fx) \<Longrightarrow>
   v_file v' = v_file v \<and> v_fileID v' = v_fileID v \<and>
   (\<forall>p f. Open p f \<notin> set fx) \<and> (\<forall>f. Close f \<notin> set fx)"
  by (auto simp: loopBody_def checkFileState_def getFileIdentity_windows_def Let_def
           split: if_splits prod.splits option.splits sum.splits)

lemma forLoop_windows_keeps_handle:
  "forLoop getFileIdentity_windows path es v = (out, v', fx) \<Longrightarrow>
   v_file v' = v_file v \<and> v_fileID v' = v_fileID v \<and>
   (\<forall>p f. Open p f \<notin> set fx) \<and> (\<forall>f. Close f \<notin> set fx)"
proof (induction es arbitrary: v out v' fx)
  case Nil
  then show ?case by simp
next
  case (Cons e es)
  obtain fl v1 fx1 where b: "loopBody getFileIdentity_windows path e v = (fl, v1, fx1)"
    by (metis prod_cases3)
  note k = loopBody_windows_keeps_handle[OF b]
  show ?case
  proof (cases fl)
    case Continue
    obtain out2 v2 fx2 where r: "forLoop getFileIdentity_windows path es v1 = (out2, v2, fx2)"
      by (metis prod_cases3)
    from Cons.prems b Continue r have "v' = v2" and "fx = fx1 @ fx2"
      by simp_all
    with Cons.IH[OF r] k show ?thesis by simp
  next
    case (Return r)
    with Cons.prems b have "v' = v1" and "fx = fx1" by simp_all
    with k show ?thesis by simp
  qed
qed

text \<open>
  C4. The resolver built where no inode is to be had returns the zero identity for every
  file. Whatever the resolver, when the identity resolved from the path is the zero
  identity the state check does not reopen: it returns the held handle and identity, and
  its only possible effect is the seek to the start with the reset of the reader. With
  the resolver that always returns the zero identity, the state check never reopens and
  seeks only when the size is smaller than the position; and over any run of the loop the
  held handle and identity stay what they were, and no handle is opened or closed.
\<close>

theorem sentinel_never_reopens:
  "getFileIdentity_windows info = fileIdentity_zero \<and>
   (pathStat ob = Inr pathInfo \<and> gfi pathInfo = fileIdentity_zero \<longrightarrow>
      (case checkFileState gfi ob file reader fileID path of
         ((file', reader', fileID', reopened, err), fx) \<Rightarrow>
           \<not> reopened \<and> file' = file \<and> fileID' = fileID \<and>
           (fx = [] \<or> fx = [SeekStart file, ReaderReset file]))) \<and>
   (case checkFileState getFileIdentity_windows ob file reader fileID path of
      ((file', reader', fileID', reopened, err), fx) \<Rightarrow>
        \<not> reopened \<and> file' = file \<and> fileID' = fileID \<and>
        (fx = [] \<or>
         fx = [SeekStart file, ReaderReset file] \<and>
         (\<exists>pos st. seekCur ob = Inr pos \<and> fstat ob = Inr st \<and> fi_size st < pos))) \<and>
   (case tailLoop getFileIdentity_windows es file reader fileID path of
      (out, v, fx) \<Rightarrow>
        v_file v = file \<and> v_fileID v = fileID \<and>
        (\<forall>p f. Open p f \<notin> set fx) \<and> (\<forall>f. Close f \<notin> set fx))"
proof -
  have a: "getFileIdentity_windows info = fileIdentity_zero"
    by (simp add: getFileIdentity_windows_def)
  have b: "pathStat ob = Inr pathInfo \<and> gfi pathInfo = fileIdentity_zero \<longrightarrow>
      (case checkFileState gfi ob file reader fileID path of
         ((file', reader', fileID', reopened, err), fx) \<Rightarrow>
           \<not> reopened \<and> file' = file \<and> fileID' = fileID \<and>
           (fx = [] \<or> fx = [SeekStart file, ReaderReset file]))"
    by (auto simp: checkFileState_def Let_def split: sum.splits option.splits)
  have c: "case checkFileState getFileIdentity_windows ob file reader fileID path of
      ((file', reader', fileID', reopened, err), fx) \<Rightarrow>
        \<not> reopened \<and> file' = file \<and> fileID' = fileID \<and>
        (fx = [] \<or>
         fx = [SeekStart file, ReaderReset file] \<and>
         (\<exists>pos st. seekCur ob = Inr pos \<and> fstat ob = Inr st \<and> fi_size st < pos))"
    by (auto simp: checkFileState_def getFileIdentity_windows_def Let_def
             split: sum.splits option.splits)
  obtain out v fx where r: "tailLoop getFileIdentity_windows es file reader fileID path = (out, v, fx)"
    by (metis prod_cases3)
  have d: "v_file v = file \<and> v_fileID v = fileID \<and>
        (\<forall>p f. Open p f \<notin> set fx) \<and> (\<forall>f. Close f \<notin> set fx)"
    using forLoop_windows_keeps_handle[OF r[unfolded tailLoop_def]] by simp
  show ?thesis using a b c d r by simp
qed

text \<open>
  An instance: on a platform with inodes the metadata of the path does not carry them
  (the type assertion fails), while the path names a different file; the handle has been
  read to the end of a file of 3 bytes.
\<close>

theorem sentinel_never_reopens_witness:
  "getFileIdentity \<lparr>fi_size = 0, fi_sys = None\<rparr> = fileIdentity_zero \<and>
   checkFileState getFileIdentity
      \<lparr>seekCur = Inr 3, fstat = Inr (heldInfo 3), seekStart = None,
       pathStat = Inr \<lparr>fi_size = 0, fi_sys = None\<rparr>, openPath = Inr 4, newStat = Inr (otherInfo 0)\<rparr>
      3 (NewReader 3) heldID ''app.log'' =
     ((3, NewReader 3, heldID, False, None), []) \<and>
   tailLoop getFileIdentity_windows [atEOF ''abc'' (rotatedAway 3 0), atEOF [] (sameFile 3 0)]
      3 (NewReader 3) heldID ''app.log'' =
     (Running,
      \<lparr>v_file = 3, v_reader = NewReader 3, v_fileID = heldID, partialLine = ''abc''\<rparr>,
      [ReaderReset 3, Wait, SeekStart 3, ReaderReset 3, ReaderReset 3, Wait])"
proof -
  have z: "getFileIdentity \<lparr>fi_size = 0, fi_sys = None\<rparr> = fileIdentity_zero"
    by (simp add: getFileIdentity_def)
  have c: "checkFileState getFileIdentity
      \<lparr>seekCur = Inr 3, fstat = Inr (heldInfo 3), seekStart = None,
       pathStat = Inr \<lparr>fi_size = 0, fi_sys = None\<rparr>, openPath = Inr 4, newStat = Inr (otherInfo 0)\<rparr>
      3 (NewReader 3) heldID ''app.log'' =
     ((3, NewReader 3, heldID, False, None), [])"
    using z sentinel_never_reopens [where gfi = getFileIdentity
        and ob = "\<lparr>seekCur = Inr 3, fstat = Inr (heldInfo 3), seekStart = None,
           pathStat = Inr \<lparr>fi_size = 0, fi_sys = None\<rparr>, openPath = Inr 4, newStat = Inr (otherInfo 0)\<rparr>"
        and pathInfo = "\<lparr>fi_size = 0, fi_sys = None\<rparr>" and ?file = 3 and reader = "NewReader 3"
        and fileID = heldID and path = "''app.log''"]
    by (simp add: checkFileState_def heldInfo_def)
  have t: "tailLoop getFileIdentity_windows [atEOF ''abc'' (rotatedAway 3 0), atEOF [] (sameFile 3 0)]
      3 (NewReader 3) heldID ''app.log'' =
     (Running,
      \<lparr>v_file = 3, v_reader = NewReader 3, v_fileID = heldID, partialLine = ''abc''\<rparr>,
      [ReaderReset 3, Wait, SeekStart 3, ReaderReset 3, ReaderReset 3, Wait])"
    by (simp add: tailLoop_def loopBody_def checkFileState_def getFileIdentity_windows_def
          fileIdentity_zero_def Reset_def NewReader_def NewReaderSize_def
          heldInfo_def otherInfo_def heldID_def sameFile_def rotatedAway_def atEOF_def)
  show ?thesis using z c t by simp
qed

text \<open>
  C5. When the rotation check is reached and the path does not resolve, or resolves to
  another file that cannot be opened, the state check returns the held handle, reader and
  identity, \<open>reopened\<close> false and no error; the loop does not return in that pass but
  waits and goes on with the passes that follow, holding the same handle and identity.
\<close>

theorem checkFileState_transient:
  assumes "seekCur (obs e) = Inr pos" and "fstat (obs e) = Inr st" and "\<not> fi_size st < pos"
    and "(\<exists>err. pathStat (obs e) = Inl err) \<or>
         (\<exists>info err. pathStat (obs e) = Inr info \<and> gfi info \<noteq> fileID \<and>
            gfi info \<noteq> fileIdentity_zero \<and> openPath (obs e) = Inl err)"
    and "\<not> ctxDone e" and "readString e = (line, Some EOF)"
  shows "checkFileState gfi (obs e) file reader fileID path = ((file, reader, fileID, False, None), []) \<and>
         forLoop gfi path (e # es) \<lparr>v_file = file, v_reader = reader, v_fileID = fileID, partialLine = p\<rparr> =
           (case forLoop gfi path es
                   \<lparr>v_file = file, v_reader = Reset reader file, v_fileID = fileID, partialLine = p @ line\<rparr> of
              (out, v', fx) \<Rightarrow> (out, v', [ReaderReset file, Wait] @ fx))"
proof -
  have c: "checkFileState gfi (obs e) file reader fileID path = ((file, reader, fileID, False, None), [])"
    using assms(1-4) by (auto simp: checkFileState_def Let_def)
  have b: "loopBody gfi path e \<lparr>v_file = file, v_reader = reader, v_fileID = fileID, partialLine = p\<rparr> =
      (Continue, \<lparr>v_file = file, v_reader = Reset reader file, v_fileID = fileID, partialLine = p @ line\<rparr>,
       [ReaderReset file, Wait])"
    using assms(5,6) c by (simp add: loopBody_def Let_def)
  show ?thesis using c b by simp
qed

text \<open>
  An instance: the path is missing while the file is being renamed; the pass that follows
  is a cancellation, which the loop reaches.
\<close>

theorem checkFileState_transient_witness:
  "pathStat (obs (atEOF ''par''
      ((sameFile 3 3)\<lparr>pathStat := Inl (OSError ''no such file or directory'')\<rparr>))) =
     Inl (OSError ''no such file or directory'') \<and>
   checkFileState getFileIdentity
      (obs (atEOF ''par'' ((sameFile 3 3)\<lparr>pathStat := Inl (OSError ''no such file or directory'')\<rparr>)))
      3 (NewReader 3) heldID ''app.log'' =
     ((3, NewReader 3, heldID, False, None), []) \<and>
   forLoop getFileIdentity ''app.log''
      [atEOF ''par'' ((sameFile 3 3)\<lparr>pathStat := Inl (OSError ''no such file or directory'')\<rparr>),
       cancelled]
      \<lparr>v_file = 3, v_reader = NewReader 3, v_fileID = heldID, partialLine = []\<rparr> =
     (Returned None,
      \<lparr>v_file = 3, v_reader = NewReader 3, v_fileID = heldID, partialLine = ''par''\<rparr>,
      [ReaderReset 3, Wait])"
proof -
  let ?ob = "(sameFile 3 3)\<lparr>pathStat := Inl (OSError ''no such file or directory'')\<rparr>"
  have h1: "seekCur (obs (atEOF ''par'' ?ob)) = Inr 3"
    and h2: "fstat (obs (atEOF ''par'' ?ob)) = Inr (heldInfo 3)"
    and h3: "\<not> fi_size (heldInfo 3) < 3"
    and h4: "pathStat (obs (atEOF ''par'' ?ob)) = Inl (OSError ''no such file or directory'')"
    and h5: "\<not> ctxDone (atEOF ''par'' ?ob)"
    and h6: "readString (atEOF ''par'' ?ob) = (''par'', Some EOF)"
    by (simp_all add: atEOF_def sameFile_def heldInfo_def)
  have h4': "(\<exists>err. pathStat (obs (atEOF ''par'' ?ob)) = Inl err) \<or>
         (\<exists>info err. pathStat (obs (atEOF ''par'' ?ob)) = Inr info \<and> getFileIdentity info \<noteq> heldID \<and>
            getFileIdentity info \<noteq> fileIdentity_zero \<and> openPath (obs (atEOF ''par'' ?ob)) = Inl err)"
    using h4 by simp
  have r: "Reset (NewReader 3) 3 = NewReader 3"
    by (simp add: Reset_def NewReader_def NewReaderSize_def)
  have l: "loopBody getFileIdentity ''app.log'' cancelled
      \<lparr>v_file = 3, v_reader = NewReader 3, v_fileID = heldID, partialLine = ''par''\<rparr> =
      (Return None, \<lparr>v_file = 3, v_reader = NewReader 3, v_fileID = heldID, partialLine = ''par''\<rparr>, [])"
    by (simp add: loopBody_def cancelled_def)
  show ?thesis
    using checkFileState_transient [OF h1 h2 h3 h4' h5 h6,
        where ?file = 3 and reader = "NewReader 3" and path = "''app.log''" and p = "[]"
          and es = "[cancelled]"] h4 r l
    by simp
qed

section \<open>Errors, cancellation and shutdown\<close>

text \<open>
  C10. Whenever the state check returns an error, the handle, the reader and the identity
  it returns are the ones it was given, and \<open>reopened\<close> is false.
\<close>

theorem checkFileState_error_keeps_state:
  "checkFileState gfi ob file reader fileID path = ((file', reader', fileID', reopened, Some err), fx)
   \<Longrightarrow> file' = file \<and> reader' = reader \<and> fileID' = fileID \<and> \<not> reopened"
  by (auto simp: checkFileState_def Let_def split: sum.splits option.splits if_splits)

text \<open>
  An instance: the path names another file, which opens as handle 4 and then cannot be
  examined. The error comes back with the handle, reader and identity that were passed.
\<close>

theorem checkFileState_error_keeps_state_witness:
  "checkFileState getFileIdentity
      ((rotatedAway 3 0)\<lparr>newStat := Inl (OSError ''input/output error'')\<rparr>)
      3 (NewReader 3) heldID ''app.log'' =
     ((3, NewReader 3, heldID, False, Some (Wrapped ''stat new file'' (OSError ''input/output error''))),
      [Open ''app.log'' 4, Close 3, Close 4])"
proof -
  have h: "checkFileState getFileIdentity
      ((rotatedAway 3 0)\<lparr>newStat := Inl (OSError ''input/output error'')\<rparr>)
      3 (NewReader 3) heldID ''app.log'' =
     ((3, NewReader 3, heldID, False, Some (Wrapped ''stat new file'' (OSError ''input/output error''))),
      [Open ''app.log'' 4, Close 3, Close 4])"
    by (simp add: checkFileState_def getFileIdentity_def fileIdentity_zero_def
          rotatedAway_def heldInfo_def otherInfo_def heldID_def)
  show ?thesis
    using checkFileState_error_keeps_state [OF h] h by simp
qed

text \<open>
  C6. When the path cannot be opened, \<^verbatim>\<open>Follow\<close> returns no \<^verbatim>\<open>Tailer\<close> and the
  error of \<^verbatim>\<open>os.Open\<close> wrapped with the prefix \<open>tailf\<close>, and it has no effect at all:
  no channel is made and no goroutine is started. The text of the error starts with
  \<open>tailf: \<close>.
\<close>

theorem Follow_open_failure:
  assumes "osOpen oo = Inl err"
  shows "Follow gfi oo es path opts = ((None, Some (Wrapped ''tailf'' err)), []) \<and>
         errorString (Wrapped ''tailf'' err) = ''tailf: '' @ errorString err"
  using assms by (simp add: Follow_def openFile_def)

theorem Follow_open_failure_witness:
  "Follow getFileIdentity
      \<lparr>osOpen = Inl (OSError ''open /nonexistent/path/file.log: no such file or directory''),
       seekEnd = None, fileStat = Inr (heldInfo 0)\<rparr>
      [gotLine ''never'' 1] ''/nonexistent/path/file.log'' [] =
     ((None,
       Some (Wrapped ''tailf'' (OSError ''open /nonexistent/path/file.log: no such file or directory''))),
      []) \<and>
   errorString (Wrapped ''tailf'' (OSError ''open /nonexistent/path/file.log: no such file or directory'')) =
     ''tailf: open /nonexistent/path/file.log: no such file or directory''"
proof -
  have h: "osOpen \<lparr>osOpen = Inl (OSError ''open /nonexistent/path/file.log: no such file or directory''),
       seekEnd = None, fileStat = Inr (heldInfo 0)\<rparr> =
     Inl (OSError ''open /nonexistent/path/file.log: no such file or directory'')"
    by simp
  show ?thesis
    using Follow_open_failure [OF h, where gfi = getFileIdentity and es = "[gotLine ''never'' 1]"
        and path = "''/nonexistent/path/file.log''" and opts = "[]"]
    by simp
qed

text \<open>Any failure of \<^verbatim>\<open>openFile\<close> is returned the same way, before anything is made.\<close>

lemma Follow_openFile_failure:
  "openFile gfi oo path (foldl (\<lambda>cfg opt. opt cfg) defaults opts) = (Inl err, fx) \<Longrightarrow>
   Follow gfi oo es path opts = ((None, Some (Wrapped ''tailf'' err)), fx) \<and>
   Go \<notin> set fx \<and> MakeDone \<notin> set fx \<and> (\<forall>n. MakeLines n \<notin> set fx)"
  by (auto simp: Follow_def openFile_def Let_def split: sum.splits option.splits if_splits)

lemma loopBody_cancelled:
  assumes "ctxDone e \<or> (\<exists>line. readString e = (line, None) \<and>
             TrimRight (partialLine v @ line) crlf \<noteq> [] \<and> \<not> sendWins e)"
  shows "\<exists>v'. loopBody gfi path e v = (Return None, v', [])"
  using assms by (auto simp: loopBody_def Let_def)

text \<open>
  C7. Let the loop have run some passes and be about to make another, in which it
  observes the cancellation: at the first \<^verbatim>\<open>select\<close>, or at the second one, where a
  line that is not empty is to be sent and \<^verbatim>\<open>ctx.Done()\<close> is taken. Then
  \<^verbatim>\<open>tailLoop\<close> returns \<^verbatim>\<open>nil\<close>; the goroutine does not call \<^verbatim>\<open>setErr\<close>, so the
  \<^verbatim>\<open>Tailer\<close> is as it was (its error slot empty), and the goroutine ends by closing
  the handle and the two channels.
\<close>

theorem cancellation_records_no_error:
  assumes "tailLoop gfi es file reader fileID path = (Running, v, fx)"
    and "ctxDone e \<or> (\<exists>line. readString e = (line, None) \<and>
           TrimRight (partialLine v @ line) crlf \<noteq> [] \<and> \<not> sendWins e)"
  shows "fst (tailLoop gfi (es @ e # es') file reader fileID path) = Returned None \<and>
         followTask gfi (es @ e # es') t file reader fileID path =
           (t, fx @ [Close file, CloseLines, CloseDone]) \<and>
         t_err (fst (followTask gfi (es @ e # es') \<lparr>t_err = None\<rparr> file reader fileID path)) = None"
proof -
  obtain v' where b: "loopBody gfi path e v = (Return None, v', [])"
    using loopBody_cancelled[OF assms(2)] by blast
  have "tailLoop gfi (es @ e # es') file reader fileID path = (Returned None, v', fx)"
    using forLoop_append[OF assms(1)[unfolded tailLoop_def], of "e # es'"] b
    by (simp add: tailLoop_def)
  then show ?thesis by (simp add: followTask_def)
qed

text \<open>
  Two instances: after one line, cancellation is seen before the read; and after one
  line, a second line is ready but \<^verbatim>\<open>ctx.Done()\<close> is taken at the send.
\<close>

theorem cancellation_records_no_error_witness:
  "tailLoop getFileIdentity [gotLine ''a'' 1] 3 (NewReader 3) heldID ''app.log'' =
     (Running, \<lparr>v_file = 3, v_reader = NewReader 3, v_fileID = heldID, partialLine = []\<rparr>,
      [Send \<lparr>Text = ''a'', Time = 1\<rparr>]) \<and>
   followTask getFileIdentity ([gotLine ''a'' 1] @ cancelled # [gotLine ''b'' 2]) \<lparr>t_err = None\<rparr>
       3 (NewReader 3) heldID ''app.log'' =
     (\<lparr>t_err = None\<rparr>, [Send \<lparr>Text = ''a'', Time = 1\<rparr>, Close 3, CloseLines, CloseDone]) \<and>
   followTask getFileIdentity ([gotLine ''a'' 1] @ (gotLine ''b'' 2)\<lparr>sendWins := False\<rparr> # [])
       \<lparr>t_err = None\<rparr> 3 (NewReader 3) heldID ''app.log'' =
     (\<lparr>t_err = None\<rparr>, [Send \<lparr>Text = ''a'', Time = 1\<rparr>, Close 3, CloseLines, CloseDone])"
proof -
  have h1: "tailLoop getFileIdentity [gotLine ''a'' 1] 3 (NewReader 3) heldID ''app.log'' =
     (Running, \<lparr>v_file = 3, v_reader = NewReader 3, v_fileID = heldID, partialLine = []\<rparr>,
      [Send \<lparr>Text = ''a'', Time = 1\<rparr>])"
    by (simp add: tailLoop_def loopBody_def TrimRight_def crlf_def gotLine_def)
  have h2: "ctxDone cancelled \<or> (\<exists>line. readString cancelled = (line, None) \<and>
      TrimRight (partialLine \<lparr>v_file = 3, v_reader = NewReader 3, v_fileID = heldID, partialLine = []\<rparr>
         @ line) crlf \<noteq> [] \<and> \<not> sendWins cancelled)"
    by (simp add: cancelled_def)
  have h3: "ctxDone ((gotLine ''b'' 2)\<lparr>sendWins := False\<rparr>) \<or>
      (\<exists>line. readString ((gotLine ''b'' 2)\<lparr>sendWins := False\<rparr>) = (line, None) \<and>
      TrimRight (partialLine \<lparr>v_file = 3, v_reader = NewReader 3, v_fileID = heldID, partialLine = []\<rparr>
         @ line) crlf \<noteq> [] \<and> \<not> sendWins ((gotLine ''b'' 2)\<lparr>sendWins := False\<rparr>))"
    by (simp add: gotLine_def TrimRight_def crlf_def)
  show ?thesis
    using cancellation_records_no_error [OF h1 h2, where es' = "[gotLine ''b'' 2]" and t = "\<lparr>t_err = None\<rparr>"]
      cancellation_records_no_error [OF h1 h3, where es' = "[]" and t = "\<lparr>t_err = None\<rparr>"] h1
    by simp
qed

lemma loopBody_sent_nonempty:
  "loopBody gfi path e v = (fl, v', fx) \<Longrightarrow> l \<in> set (sent fx) \<Longrightarrow> Text l \<noteq> []"
  by (auto simp: loopBody_def checkFileState_def Let_def
           split: if_splits prod.splits option.splits sum.splits)

lemma forLoop_sent_nonempty:
  "l \<in> set (sent (snd (snd (forLoop gfi path es v)))) \<Longrightarrow> Text l \<noteq> []"
proof (induction es arbitrary: v)
  case Nil
  then show ?case by simp
next
  case (Cons e es)
  obtain fl v' fx where b: "loopBody gfi path e v = (fl, v', fx)"
    by (metis prod_cases3)
  show ?case
  proof (cases fl)
    case Continue
    obtain out v'' fx' where r: "forLoop gfi path es v' = (out, v'', fx')"
      by (metis prod_cases3)
    from Cons.prems b Continue r have "l \<in> set (sent fx) \<or> l \<in> set (sent fx')"
      by (simp add: sent_append)
    then show ?thesis
      using loopBody_sent_nonempty[OF b] Cons.IH[of v'] r by auto
  next
    case (Return r)
    with Cons.prems b show ?thesis
      using loopBody_sent_nonempty[OF b] by simp
  qed
qed

text \<open>
  C8. No line the loop sends has an empty text, whatever the run. In particular a pass
  whose read completes a line that is empty once the pending bytes are put in front and
  the trailing carriage returns and line feeds are stripped (a terminator right after the
  previous one: nothing pending, the read is a lone line feed) sends nothing and goes
  round again with an empty pending buffer.
\<close>

theorem empty_lines_discarded:
  "(\<forall>l \<in> set (sent (snd (snd (tailLoop gfi es file reader fileID path)))). Text l \<noteq> []) \<and>
   (\<not> ctxDone e \<and> readString e = (line, None) \<and> TrimRight (partialLine v @ line) crlf = []
      \<longrightarrow> loopBody gfi path e v = (Continue, v\<lparr>partialLine := []\<rparr>, []))"
proof -
  have "\<forall>l \<in> set (sent (snd (snd (tailLoop gfi es file reader fileID path)))). Text l \<noteq> []"
    using forLoop_sent_nonempty by (simp add: tailLoop_def)
  moreover have "\<not> ctxDone e \<and> readString e = (line, None) \<and> TrimRight (partialLine v @ line) crlf = []
      \<longrightarrow> loopBody gfi path e v = (Continue, v\<lparr>partialLine := []\<rparr>, [])"
    by (auto simp: loopBody_def Let_def)
  ultimately show ?thesis by simp
qed

text \<open>
  An instance: the file holds \<open>a\<close>, a line feed, a second line feed, a carriage return
  with a line feed, then \<open>b\<close> and a line feed. Two lines are sent.
\<close>

theorem empty_lines_discarded_witness:
  "sent (snd (snd (tailLoop getFileIdentity
      [gotLine ''a'' 1, gotLine [] 2, gotLine [CHR 0x0D] 3, gotLine ''b'' 4]
      3 (NewReader 3) heldID ''app.log''))) =
     [\<lparr>Text = ''a'', Time = 1\<rparr>, \<lparr>Text = ''b'', Time = 4\<rparr>] \<and>
   loopBody getFileIdentity ''app.log'' (gotLine [] 2)
      \<lparr>v_file = 3, v_reader = NewReader 3, v_fileID = heldID, partialLine = []\<rparr> =
     (Continue, \<lparr>v_file = 3, v_reader = NewReader 3, v_fileID = heldID, partialLine = []\<rparr>, [])"
proof -
  have s: "sent (snd (snd (tailLoop getFileIdentity
      [gotLine ''a'' 1, gotLine [] 2, gotLine [CHR 0x0D] 3, gotLine ''b'' 4]
      3 (NewReader 3) heldID ''app.log''))) =
     [\<lparr>Text = ''a'', Time = 1\<rparr>, \<lparr>Text = ''b'', Time = 4\<rparr>]"
    by (simp add: tailLoop_def loopBody_def TrimRight_def crlf_def gotLine_def)
  have h: "\<not> ctxDone (gotLine [] 2) \<and> readString (gotLine [] 2) = ([CHR 0x0A], None) \<and>
      TrimRight (partialLine \<lparr>v_file = 3, v_reader = NewReader 3, v_fileID = heldID, partialLine = []\<rparr>
        @ [CHR 0x0A]) crlf = []"
    by (simp add: gotLine_def TrimRight_def crlf_def)
  show ?thesis
    using empty_lines_discarded [where gfi = getFileIdentity and path = "''app.log''"
        and e = "gotLine [] 2" and line = "[CHR 0x0A]"
        and v = "\<lparr>v_file = 3, v_reader = NewReader 3, v_fileID = heldID, partialLine = []\<rparr>"] s h
    by simp
qed

text \<open>
  C9, evaluated on a run with a rotation. \<^verbatim>\<open>Follow\<close> opens handle 3; the first pass
  finds the path naming another file, opens it as handle 4 and closes handle 3; the second
  pass sees the cancellation. The goroutine then closes handle 3 again (the handle its
  \<^verbatim>\<open>defer\<close> was given), closes \<^verbatim>\<open>t.lines\<close> and closes \<^verbatim>\<open>t.done\<close>. Handle 4,
  the one the loop held, is never closed: it is still open when \<^verbatim>\<open>t.done\<close> is closed.
\<close>

theorem rotation_leaks_handle:
  "Follow getFileIdentity \<lparr>osOpen = Inr 3, seekEnd = None, fileStat = Inr (heldInfo 0)\<rparr>
      [atEOF [] (rotatedAway 0 0), cancelled] ''app.log'' [WithFromStart True] =
     ((Some \<lparr>t_err = None\<rparr>, None),
      [Open ''app.log'' 3, MakeLines 64, MakeDone, Go,
       Open ''app.log'' 4, Close 3, Wait, Close 3, CloseLines, CloseDone]) \<and>
   openHandles [Open ''app.log'' 3, MakeLines 64, MakeDone, Go,
       Open ''app.log'' 4, Close 3, Wait, Close 3, CloseLines, CloseDone] [] = [4]"
  by (simp add: Follow_def openFile_def followTask_def tailLoop_def loopBody_def checkFileState_def
        getFileIdentity_def fileIdentity_zero_def defaults_def WithFromStart_def
        Reset_def NewReader_def NewReaderSize_def
        heldInfo_def otherInfo_def rotatedAway_def atEOF_def cancelled_def)


end

